theory Spec2Isabelle
  imports Main "HOL-Library.Monad_Syntax" "HOL-Library.Sublist"
begin

section \<open>The driver as seen by the example scripts\<close>

text \<open>
  Both scripts only sequence calls into the MongoDB driver. The driver and the server are
  external, so they are a parameter of the model: every call the scripts make on the session
  (or on a collection, with the session attached) is recorded in a history, and the driver
  answers a call from the history that ends with it, either by resolving (\<open>None\<close>) or by
  rejecting with an error (\<open>Some e\<close>). Any sequence of answers the database can give in one
  execution is such a function.
\<close>

text \<open>
  An error thrown by the driver: \<open>ident\<close> stands for the identity of the error object, and
  \<open>errorLabels\<close> for the labels that \<open>error.hasErrorLabel(label)\<close> looks up. The values
  the scripts catch come from calls into the driver, and each of them is such an error.
\<close>

datatype error = MongoError (ident: nat) (errorLabels: "string list")

definition hasErrorLabel :: "error \<Rightarrow> string \<Rightarrow> bool" where
  "hasErrorLabel e l = (l \<in> set (errorLabels e))"

text \<open>
  The operations of a session. \<open>UpdateOne\<close> and \<open>InsertOne\<close> are the two writes of
  \<open>updateEmployeeInfo\<close>; \<open>EndSession\<close> is \<open>session.endSession()\<close>, which closes the session.
\<close>

datatype call =
    StartTransaction
  | UpdateOne
  | InsertOne
  | CommitTransaction
  | AbortTransaction
  | EndSession

type_synonym driver = "call list \<Rightarrow> error option"

text \<open>
  What a run of the script can be observed to do: the calls it made on the session, in order,
  and the lines it printed with \<open>console.log\<close>.
\<close>

record world =
  calls :: "call list"
  console :: "string list"

type_synonym 'a outcome = "(error + 'a) \<times> world"

text \<open>One awaited call: it is appended to the history, and the driver answers it.\<close>

definition invoke :: "driver \<Rightarrow> call \<Rightarrow> world \<Rightarrow> unit outcome" where
  "invoke db c w =
     (let w' = w\<lparr>calls := calls w @ [c]\<rparr>
      in (case db (calls w') of None \<Rightarrow> Inr () | Some e \<Rightarrow> Inl e, w'))"

definition console_log :: "string \<Rightarrow> world \<Rightarrow> world" where
  "console_log s w = w\<lparr>console := console w @ [s]\<rparr>"

section \<open>The Core API example (example.js, lines 77 to 140)\<close>

text \<open>
  \<open>commitWithRetry\<close> (lines 77 to 90) calls itself without a bound, so it is a partial
  function: \<open>None\<close> is a run that never returns, \<open>Some (Inl e, w)\<close> one that throws \<open>e\<close>,
  \<open>Some (Inr (), w)\<close> one that returns.
\<close>

partial_function (option) commitWithRetry :: "driver \<Rightarrow> world \<Rightarrow> unit outcome option" where
  "commitWithRetry db w =
     (case invoke db CommitTransaction w of
        (Inr u, w1) \<Rightarrow> Some (Inr (), console_log ''Transaction committed.'' w1)
      | (Inl error, w1) \<Rightarrow>
          if hasErrorLabel error ''UnknownTransactionCommitResult''
          then commitWithRetry db
                 (console_log ''UnknownTransactionCommitResult, retrying commit operation ...'' w1)
          else Some (Inl error, console_log ''Error during commit ...'' w1))"

declare commitWithRetry.simps [code]

text \<open>
  The reads and writes of the transaction (lines 115 to 128): \<open>updateOne\<close> on
  \<open>hr.employees\<close>, then \<open>insertOne\<close> on \<open>reporting.events\<close>. Getting the collection handles
  makes no call to the server. A rejected write leaves the function at once.
\<close>

definition workUnit :: "driver \<Rightarrow> world \<Rightarrow> unit outcome" where
  "workUnit db w =
     (case invoke db UpdateOne w of
        (Inl error, w1) \<Rightarrow> (Inl error, w1)
      | (Inr u, w1) \<Rightarrow> invoke db InsertOne w1)"

text \<open>
  \<open>updateEmployeeInfo\<close> (lines 108 to 136). Only the commit is inside \<open>try\<close>: an error of
  \<open>startTransaction\<close> or of a write leaves the function as it is, an error of
  \<open>commitWithRetry\<close> is followed by \<open>abortTransaction\<close> and thrown again, and an error of
  \<open>abortTransaction\<close> itself replaces it.
\<close>

definition updateEmployeeInfo :: "driver \<Rightarrow> world \<Rightarrow> unit outcome option" where
  "updateEmployeeInfo db w =
     (case invoke db StartTransaction w of
        (Inl error, w1) \<Rightarrow> Some (Inl error, w1)
      | (Inr u, w1) \<Rightarrow>
          (case workUnit db w1 of
             (Inl error, w2) \<Rightarrow> Some (Inl error, w2)
           | (Inr u, w2) \<Rightarrow>
               do {
                 (r, w3) \<leftarrow> commitWithRetry db w2;
                 case r of
                   Inr u \<Rightarrow> Some (Inr (), w3)
                 | Inl error \<Rightarrow>
                     (case invoke db AbortTransaction w3 of
                        (Inl error', w4) \<Rightarrow> Some (Inl error', w4)
                      | (Inr u, w4) \<Rightarrow> Some (Inl error, w4))
               }))"

text \<open>
  \<open>runTransactionWithRetry\<close> (lines 92 to 106): the client and the session of the source are
  the driver and the world here.
\<close>

partial_function (option) runTransactionWithRetry ::
  "(driver \<Rightarrow> world \<Rightarrow> unit outcome option) \<Rightarrow> driver \<Rightarrow> world \<Rightarrow> unit outcome option" where
  "runTransactionWithRetry txnFunc db w =
     do {
       (r, w1) \<leftarrow> txnFunc db w;
       case r of
         Inr u \<Rightarrow> Some (Inr (), w1)
       | Inl error \<Rightarrow>
           (let w2 = console_log ''Transaction aborted. Caught exception during transaction.'' w1
            in if hasErrorLabel error ''TransientTransactionError''
               then runTransactionWithRetry txnFunc db
                      (console_log ''TransientTransactionError, retrying transaction ...'' w2)
               else Some (Inl error, w2))
     }"

declare runTransactionWithRetry.simps [code]

text \<open>
  The callback given to \<open>client.withSession\<close> (lines 138 and 139): the transaction runner
  applied to \<open>updateEmployeeInfo\<close>.
\<close>

definition run :: "driver \<Rightarrow> world \<Rightarrow> unit outcome option" where
  "run db w = runTransactionWithRetry updateEmployeeInfo db w"

section \<open>The handler (part\_000)\<close>

text \<open>
  The cluster answers \<open>find().toArray()\<close> on a namespace with the documents of the
  collection, in the order of the cursor, or rejects. \<open>limit(n)\<close> cuts the cursor after
  \<open>n\<close> documents, and \<open>limit(0)\<close> is no limit.
\<close>

type_synonym 'doc cluster = "string \<Rightarrow> string \<Rightarrow> error + 'doc list"

definition limit :: "nat \<Rightarrow> 'doc list \<Rightarrow> 'doc list" where
  "limit n docs = (if n = 0 then docs else take n docs)"

record 'doc response =
  statusCode :: nat
  body :: "'doc list"

definition handler :: "'event \<Rightarrow> 'doc cluster \<Rightarrow> error + 'doc response" where
  "handler event client =
     (case client ''sample_mflix'' ''movies'' of
        Inl e \<Rightarrow> Inl e
      | Inr docs \<Rightarrow> Inr \<lparr>statusCode = 200, body = limit 10 docs\<rparr>)"

section \<open>Scripted drivers\<close>

text \<open>
  \<open>answers db hist script\<close>: starting from the history \<open>hist\<close>, the driver answers the calls
  of the script, made one after the other, with the outcomes the script gives.
\<close>

primrec answers :: "driver \<Rightarrow> call list \<Rightarrow> (call \<times> error option) list \<Rightarrow> bool" where
  "answers db hist [] = True"
| "answers db hist (co # cos) =
     (db (hist @ [fst co]) = snd co \<and> answers db (hist @ [fst co]) cos)"

text \<open>
  A driver for concrete runs: the k-th call of the run gets the k-th outcome of the list, and
  every call after the end of the list resolves.
\<close>

definition replay :: "error option list \<Rightarrow> driver" where
  "replay outs hist =
     (if hist \<noteq> [] \<and> length hist \<le> length outs then outs ! (length hist - 1) else None)"

text \<open>A session on which nothing has been called yet.\<close>

definition fresh :: world where
  "fresh = \<lparr>calls = [], console = []\<rparr>"

text \<open>
  A driver that rejects every commit with an error labelled \<open>TransientTransactionError\<close>
  only, and resolves every other call.
\<close>

definition commit_always_transient :: driver where
  "commit_always_transient hist =
     (if hist \<noteq> [] \<and> last hist = CommitTransaction
      then Some (MongoError 10 [''TransientTransactionError'']) else None)"

text \<open>A cluster whose collection \<open>sample_mflix.movies\<close> holds twelve documents.\<close>

definition twelve_movies :: "nat cluster" where
  "twelve_movies dbName collName =
     (if dbName = ''sample_mflix'' \<and> collName = ''movies''
      then Inr [1, 2, 3, 4, 5, 6, 7, 8, 9, 10, 11, 12] else Inr [])"

section \<open>Drivers that stop asking for retries\<close>

text \<open>
  \<open>non_transient_after db K\<close>: once \<open>startTransaction\<close> has been called \<open>K\<close> times, no answer
  of the driver carries \<open>TransientTransactionError\<close>, whatever the call.
  \<open>work_unit_non_transient_after db K\<close> asks this of the answers to the two writes of the
  work unit only. \<open>commit_known_after db N\<close>: a commit made after \<open>N\<close> earlier commit calls
  is not answered with \<open>UnknownTransactionCommitResult\<close>.
\<close>

definition non_transient_after :: "driver \<Rightarrow> nat \<Rightarrow> bool" where
  "non_transient_after db K =
     (\<forall>hist e. K \<le> count_list hist StartTransaction \<longrightarrow> db hist = Some e \<longrightarrow>
        \<not> hasErrorLabel e ''TransientTransactionError'')"

definition work_unit_non_transient_after :: "driver \<Rightarrow> nat \<Rightarrow> bool" where
  "work_unit_non_transient_after db K =
     (\<forall>hist c e. c = UpdateOne \<or> c = InsertOne \<longrightarrow>
        K \<le> count_list hist StartTransaction \<longrightarrow> db (hist @ [c]) = Some e \<longrightarrow>
        \<not> hasErrorLabel e ''TransientTransactionError'')"

definition commit_known_after :: "driver \<Rightarrow> nat \<Rightarrow> bool" where
  "commit_known_after db N =
     (\<forall>hist e. N \<le> count_list hist CommitTransaction \<longrightarrow>
        db (hist @ [CommitTransaction]) = Some e \<longrightarrow>
        \<not> hasErrorLabel e ''UnknownTransactionCommitResult'')"

section \<open>One step of each function\<close>

lemma calls_console_log [simp]: "calls (console_log s w) = calls w"
  by (simp add: console_log_def)

lemma invoke_resolved:
  "db (calls w @ [c]) = None \<Longrightarrow> invoke db c w = (Inr (), w\<lparr>calls := calls w @ [c]\<rparr>)"
  by (simp add: invoke_def)

lemma invoke_rejected:
  "db (calls w @ [c]) = Some e \<Longrightarrow> invoke db c w = (Inl e, w\<lparr>calls := calls w @ [c]\<rparr>)"
  by (simp add: invoke_def)

lemma commit_resolved:
  "db (calls w @ [CommitTransaction]) = None \<Longrightarrow>
   commitWithRetry db w =
     Some (Inr (),
           console_log ''Transaction committed.'' (w\<lparr>calls := calls w @ [CommitTransaction]\<rparr>))"
  by (subst commitWithRetry.simps) (simp add: invoke_resolved)

lemma commit_unknown:
  "db (calls w @ [CommitTransaction]) = Some e \<Longrightarrow>
   hasErrorLabel e ''UnknownTransactionCommitResult'' \<Longrightarrow>
   commitWithRetry db w =
     commitWithRetry db
       (console_log ''UnknownTransactionCommitResult, retrying commit operation ...''
          (w\<lparr>calls := calls w @ [CommitTransaction]\<rparr>))"
  by (subst commitWithRetry.simps) (simp add: invoke_rejected)

lemma commit_rejected:
  "db (calls w @ [CommitTransaction]) = Some e \<Longrightarrow>
   \<not> hasErrorLabel e ''UnknownTransactionCommitResult'' \<Longrightarrow>
   commitWithRetry db w =
     Some (Inl e,
           console_log ''Error during commit ...'' (w\<lparr>calls := calls w @ [CommitTransaction]\<rparr>))"
  by (subst commitWithRetry.simps) (simp add: invoke_rejected)

lemma runner_returns:
  "txnFunc db w = Some (Inr (), w1) \<Longrightarrow>
   runTransactionWithRetry txnFunc db w = Some (Inr (), w1)"
  by (subst runTransactionWithRetry.simps) simp

lemma runner_retries:
  "txnFunc db w = Some (Inl e, w1) \<Longrightarrow> hasErrorLabel e ''TransientTransactionError'' \<Longrightarrow>
   runTransactionWithRetry txnFunc db w =
     runTransactionWithRetry txnFunc db
       (console_log ''TransientTransactionError, retrying transaction ...''
          (console_log ''Transaction aborted. Caught exception during transaction.'' w1))"
  by (subst runTransactionWithRetry.simps) simp

lemma runner_throws:
  "txnFunc db w = Some (Inl e, w1) \<Longrightarrow> \<not> hasErrorLabel e ''TransientTransactionError'' \<Longrightarrow>
   runTransactionWithRetry txnFunc db w =
     Some (Inl e, console_log ''Transaction aborted. Caught exception during transaction.'' w1)"
  by (subst runTransactionWithRetry.simps) simp

lemma run_returns:
  "updateEmployeeInfo db w = Some (Inr (), w1) \<Longrightarrow> run db w = Some (Inr (), w1)"
  unfolding run_def by (rule runner_returns)

lemma run_retries:
  "updateEmployeeInfo db w = Some (Inl e, w1) \<Longrightarrow>
   hasErrorLabel e ''TransientTransactionError'' \<Longrightarrow>
   run db w =
     run db (console_log ''TransientTransactionError, retrying transaction ...''
          (console_log ''Transaction aborted. Caught exception during transaction.'' w1))"
  unfolding run_def by (rule runner_retries)

lemma run_throws:
  "updateEmployeeInfo db w = Some (Inl e, w1) \<Longrightarrow>
   \<not> hasErrorLabel e ''TransientTransactionError'' \<Longrightarrow>
   run db w =
     Some (Inl e, console_log ''Transaction aborted. Caught exception during transaction.'' w1)"
  unfolding run_def by (rule runner_throws)

lemmas attempt_defs = updateEmployeeInfo_def workUnit_def invoke_resolved invoke_rejected

text \<open>
  A commit that is answered with \<open>UnknownTransactionCommitResult\<close> errors \<open>es\<close> and then with
  \<open>out\<close>, which is a success or an error without that label: \<open>commitWithRetry\<close> returns \<open>out\<close>
  after one commit call for each answer.
\<close>

lemma commit_script:
  "answers db (calls w)
     (map (\<lambda>e. (CommitTransaction, Some e)) es @ [(CommitTransaction, out)]) \<Longrightarrow>
   \<forall>e \<in> set es. hasErrorLabel e ''UnknownTransactionCommitResult'' \<Longrightarrow>
   \<forall>e. out = Some e \<longrightarrow> \<not> hasErrorLabel e ''UnknownTransactionCommitResult'' \<Longrightarrow>
   \<exists>w'. commitWithRetry db w = Some (case out of None \<Rightarrow> Inr () | Some e \<Rightarrow> Inl e, w') \<and>
        calls w' = calls w @ replicate (Suc (length es)) CommitTransaction"
proof (induction es arbitrary: w)
  case Nil
  then show ?case
    by (cases out) (simp_all add: commit_resolved commit_rejected)
next
  case (Cons e es)
  let ?w1 = "console_log ''UnknownTransactionCommitResult, retrying commit operation ...''
          (w\<lparr>calls := calls w @ [CommitTransaction]\<rparr>)"
  from Cons.prems have "db (calls w @ [CommitTransaction]) = Some e"
    and "hasErrorLabel e ''UnknownTransactionCommitResult''"
    by simp_all
  then have step: "commitWithRetry db w = commitWithRetry db ?w1"
    by (rule commit_unknown)
  from Cons.prems have "answers db (calls ?w1)
      (map (\<lambda>e. (CommitTransaction, Some e)) es @ [(CommitTransaction, out)])"
    by simp
  from Cons.IH [OF this] Cons.prems obtain w' where
    "commitWithRetry db ?w1 = Some (case out of None \<Rightarrow> Inr () | Some e \<Rightarrow> Inl e, w')"
    "calls w' = calls ?w1 @ replicate (Suc (length es)) CommitTransaction"
    by auto
  with step show ?case by (simp add: replicate_append_same)
qed

lemma answers_append:
  "answers db hist (xs @ ys) = (answers db hist xs \<and> answers db (hist @ map fst xs) ys)"
  by (induction xs arbitrary: hist) auto

section \<open>One attempt of the transaction\<close>

text \<open>
  What \<open>updateEmployeeInfo\<close> returns when a write is rejected, when the commit resolves after
  some \<open>UnknownTransactionCommitResult\<close> answers, and when it is rejected for good and the
  abort that follows resolves.
\<close>

lemma attempt_write_rejected:
  assumes "attempt = [(StartTransaction, None), (UpdateOne, Some e)] \<or>
           attempt = [(StartTransaction, None), (UpdateOne, None), (InsertOne, Some e)]"
    and "answers db (calls w) attempt"
  shows "updateEmployeeInfo db w = Some (Inl e, w\<lparr>calls := calls w @ map fst attempt\<rparr>)"
  using assms by (auto simp add: attempt_defs)

lemma attempt_commit_resolved:
  assumes "answers db (calls w)
       ([(StartTransaction, None), (UpdateOne, None), (InsertOne, None)] @
        map (\<lambda>u. (CommitTransaction, Some u)) es @ [(CommitTransaction, None)])"
    and "\<forall>u \<in> set es. hasErrorLabel u ''UnknownTransactionCommitResult''"
  shows "\<exists>w'. updateEmployeeInfo db w = Some (Inr (), w') \<and>
        calls w' = calls w @ [StartTransaction, UpdateOne, InsertOne] @
                   replicate (Suc (length es)) CommitTransaction"
proof -
  let ?w2 = "w\<lparr>calls := calls w @ [StartTransaction, UpdateOne, InsertOne]\<rparr>"
  from assms(1) have writes: "answers db (calls w)
      [(StartTransaction, None), (UpdateOne, None), (InsertOne, None)]"
    and commits: "answers db (calls ?w2)
      (map (\<lambda>u. (CommitTransaction, Some u)) es @ [(CommitTransaction, None)])"
    by (simp_all only: answers_append, simp_all)
  from commit_script [OF commits assms(2)] obtain w3 where
    w3: "commitWithRetry db ?w2 = Some (Inr (), w3)"
      "calls w3 = calls ?w2 @ replicate (Suc (length es)) CommitTransaction"
    by auto
  from writes have "updateEmployeeInfo db w = commitWithRetry db ?w2 \<bind>
        (\<lambda>(r, w3). case r of Inr u \<Rightarrow> Some (Inr (), w3)
           | Inl error \<Rightarrow> (case invoke db AbortTransaction w3 of
                        (Inl error', w4) \<Rightarrow> Some (Inl error', w4)
                      | (Inr u, w4) \<Rightarrow> Some (Inl error, w4)))"
    by (simp add: attempt_defs)
  with w3 show ?thesis by simp
qed

lemma attempt_commit_rejected:
  assumes "answers db (calls w)
       ([(StartTransaction, None), (UpdateOne, None), (InsertOne, None)] @
        map (\<lambda>u. (CommitTransaction, Some u)) es @
        [(CommitTransaction, Some e), (AbortTransaction, None)])"
    and "\<forall>u \<in> set es. hasErrorLabel u ''UnknownTransactionCommitResult''"
    and "\<not> hasErrorLabel e ''UnknownTransactionCommitResult''"
  shows "\<exists>w'. updateEmployeeInfo db w = Some (Inl e, w') \<and>
        calls w' = calls w @ [StartTransaction, UpdateOne, InsertOne] @
                   replicate (Suc (length es)) CommitTransaction @ [AbortTransaction]"
proof -
  let ?w2 = "w\<lparr>calls := calls w @ [StartTransaction, UpdateOne, InsertOne]\<rparr>"
  let ?cs = "replicate (Suc (length es)) CommitTransaction"
  have split: "map (\<lambda>u. (CommitTransaction, Some u)) es @
        [(CommitTransaction, Some e), (AbortTransaction, None)] =
      (map (\<lambda>u. (CommitTransaction, Some u)) es @ [(CommitTransaction, Some e)]) @
        [(AbortTransaction, None)]"
    by simp
  have fsts: "map fst (map (\<lambda>u. (CommitTransaction, Some u)) es @ [(CommitTransaction, Some e)]) = ?cs"
    by (simp add: comp_def replicate_append_same map_replicate_const)
  from assms(1) have writes: "answers db (calls w)
      [(StartTransaction, None), (UpdateOne, None), (InsertOne, None)]"
    and rest: "answers db (calls ?w2)
      ((map (\<lambda>u. (CommitTransaction, Some u)) es @ [(CommitTransaction, Some e)]) @
        [(AbortTransaction, None)])"
    unfolding split by (simp_all only: answers_append, simp_all)
  from rest have commits: "answers db (calls ?w2)
      (map (\<lambda>u. (CommitTransaction, Some u)) es @ [(CommitTransaction, Some e)])"
    and abort: "db ((calls ?w2 @ ?cs) @ [AbortTransaction]) = None"
    unfolding answers_append fsts by simp_all
  from commit_script [OF commits assms(2)] assms(3) obtain w3 where
    w3: "commitWithRetry db ?w2 = Some (Inl e, w3)" "calls w3 = calls ?w2 @ ?cs"
    by auto
  from writes have "updateEmployeeInfo db w = commitWithRetry db ?w2 \<bind>
        (\<lambda>(r, w3). case r of Inr u \<Rightarrow> Some (Inr (), w3)
           | Inl error \<Rightarrow> (case invoke db AbortTransaction w3 of
                        (Inl error', w4) \<Rightarrow> Some (Inl error', w4)
                      | (Inr u, w4) \<Rightarrow> Some (Inl error, w4)))"
    by (simp add: attempt_defs)
  moreover from abort w3(2) have "invoke db AbortTransaction w3 =
      (Inr (), w3\<lparr>calls := calls w3 @ [AbortTransaction]\<rparr>)"
    by (intro invoke_resolved) simp
  ultimately show ?thesis using w3 by simp
qed

section \<open>The calls a run makes and the errors it returns\<close>

text \<open>
  Whatever the driver answers: \<open>commitWithRetry\<close> makes commit calls only, and an error it
  throws is the answer to its last call; an attempt of \<open>updateEmployeeInfo\<close> starts with
  \<open>startTransaction\<close>, goes on with writes, commits and aborts, and an error it throws is the
  answer to one of these calls; a run is a sequence of such attempts.
\<close>

lemma commit_shape:
  "commitWithRetry db w = Some y \<Longrightarrow>
   (\<exists>n. calls (snd y) = calls w @ replicate (Suc n) CommitTransaction) \<and>
   (\<forall>e. fst y = Inl e \<longrightarrow> db (calls (snd y)) = Some e)"
proof (induct rule: commitWithRetry.raw_induct [rotated 1, consumes 1, case_names step])
  case (step f db w y)
  note IH = step(1) and body = step(2)
  let ?w1 = "w\<lparr>calls := calls w @ [CommitTransaction]\<rparr>"
  show ?case
  proof (cases "db (calls w @ [CommitTransaction])")
    case None
    with body have "y = (Inr (), console_log ''Transaction committed.'' ?w1)"
      by (simp add: invoke_resolved)
    then show ?thesis
      by (simp add: exI [of _ 0])
  next
    case (Some e)
    show ?thesis
    proof (cases "hasErrorLabel e ''UnknownTransactionCommitResult''")
      case True
      let ?w2 = "console_log ''UnknownTransactionCommitResult, retrying commit operation ...'' ?w1"
      from body Some True have "f db ?w2 = Some y"
        by (simp add: invoke_rejected)
      from IH [OF this] obtain n where
        n: "calls (snd y) = calls ?w2 @ replicate (Suc n) CommitTransaction"
        and e: "\<forall>e. fst y = Inl e \<longrightarrow> db (calls (snd y)) = Some e"
        by blast
      from n have "calls (snd y) = calls w @ replicate (Suc (Suc n)) CommitTransaction"
        by simp
      with e show ?thesis by blast
    next
      case False
      with body Some have "y = (Inl e, console_log ''Error during commit ...'' ?w1)"
        by (simp add: invoke_rejected)
      with Some show ?thesis
        by (simp add: exI [of _ 0])
    qed
  qed
qed

lemma invoke_cases:
  obtains "db (calls w @ [c]) = None" "invoke db c w = (Inr (), w\<lparr>calls := calls w @ [c]\<rparr>)"
  | e where "db (calls w @ [c]) = Some e" "invoke db c w = (Inl e, w\<lparr>calls := calls w @ [c]\<rparr>)"
  by (cases "db (calls w @ [c])") (auto simp add: invoke_def)

lemma workUnit_shape:
  "workUnit db w = (r, w') \<Longrightarrow>
   (\<exists>cs. calls w' = calls w @ cs \<and> cs \<noteq> [] \<and> set cs \<subseteq> {UpdateOne, InsertOne}) \<and>
   (\<forall>e. r = Inl e \<longrightarrow> db (calls w') = Some e)"
  unfolding workUnit_def
  by (rule invoke_cases [of db w UpdateOne];
      rule invoke_cases [of db "w\<lparr>calls := calls w @ [UpdateOne]\<rparr>" InsertOne]) auto

lemma attempt_shape:
  assumes "updateEmployeeInfo db w = Some (r, w')"
  shows "\<exists>cs. calls w' = calls w @ StartTransaction # cs \<and>
            set cs \<subseteq> {UpdateOne, InsertOne, CommitTransaction, AbortTransaction} \<and>
            (\<forall>e. r = Inl e \<longrightarrow>
               (\<exists>cs'. prefix cs' cs \<and> db (calls w @ StartTransaction # cs') = Some e))"
proof -
  let ?w1 = "w\<lparr>calls := calls w @ [StartTransaction]\<rparr>"
  show ?thesis
  proof (rule invoke_cases [of db w StartTransaction])
    fix e
    assume "db (calls w @ [StartTransaction]) = Some e" "invoke db StartTransaction w = (Inl e, ?w1)"
    with assms have "r = Inl e" "w' = ?w1" "db (calls w @ StartTransaction # []) = Some e"
      by (simp_all add: updateEmployeeInfo_def)
    then show ?thesis by (intro exI [of _ "[]"]) auto
  next
    assume start: "invoke db StartTransaction w = (Inr (), ?w1)"
    obtain r2 w2 where wu: "workUnit db ?w1 = (r2, w2)"
      by (cases "workUnit db ?w1")
    from workUnit_shape [OF wu] obtain ws where
      ws: "calls w2 = calls w @ StartTransaction # ws" "set ws \<subseteq> {UpdateOne, InsertOne}"
      and wse: "\<forall>e. r2 = Inl e \<longrightarrow> db (calls w2) = Some e"
      by auto
    show ?thesis
    proof (cases r2)
      case (Inl e)
      with assms start wu have "r = Inl e" "w' = w2"
        by (simp_all add: updateEmployeeInfo_def)
      with ws wse Inl show ?thesis
        by (intro exI [of _ ws]) auto
    next
      case (Inr u)
      with assms start wu obtain r3 w3 where
        commit: "commitWithRetry db w2 = Some (r3, w3)"
        and rest: "(case r3 of Inr u \<Rightarrow> Some (Inr (), w3)
             | Inl error \<Rightarrow>
                 (case invoke db AbortTransaction w3 of
                    (Inl error', w4) \<Rightarrow> Some (Inl error', w4)
                  | (Inr u, w4) \<Rightarrow> Some (Inl error, w4))) = Some (r, w')"
        by (auto simp add: updateEmployeeInfo_def bind_eq_Some_conv)
      from commit_shape [OF commit] obtain n where
        n: "calls w3 = calls w2 @ replicate (Suc n) CommitTransaction"
        and ce: "\<forall>e. r3 = Inl e \<longrightarrow> db (calls w3) = Some e"
        by auto
      let ?cs3 = "ws @ replicate (Suc n) CommitTransaction"
      from n ws have c3: "calls w3 = calls w @ StartTransaction # ?cs3"
        and s3: "set ?cs3 \<subseteq> {UpdateOne, InsertOne, CommitTransaction, AbortTransaction}"
        by auto
      show ?thesis
      proof (cases r3)
        case (Inr u)
        with rest have "r = Inr ()" "w' = w3" by simp_all
        with c3 s3 show ?thesis by (intro exI [of _ ?cs3]) simp
      next
        case (Inl e)
        with ce have dbe: "db (calls w @ StartTransaction # ?cs3) = Some e"
          by (simp add: c3)
        let ?w4 = "w3\<lparr>calls := calls w3 @ [AbortTransaction]\<rparr>"
        have c4: "calls ?w4 = calls w @ StartTransaction # (?cs3 @ [AbortTransaction])"
          by (simp add: c3)
        have s4: "set (?cs3 @ [AbortTransaction])
            \<subseteq> {UpdateOne, InsertOne, CommitTransaction, AbortTransaction}"
          using s3 by simp
        show ?thesis
        proof (rule invoke_cases [of db w3 AbortTransaction])
          assume "invoke db AbortTransaction w3 = (Inr (), ?w4)"
          with rest Inl have "r = Inl e" "w' = ?w4" by simp_all
          with c4 s4 dbe show ?thesis
            by (intro exI [of _ "?cs3 @ [AbortTransaction]"] conjI allI impI exI [of _ ?cs3])
               simp_all
        next
          fix e'
          assume "db (calls w3 @ [AbortTransaction]) = Some e'"
            "invoke db AbortTransaction w3 = (Inl e', ?w4)"
          with rest Inl have "r = Inl e'" "w' = ?w4"
            "db (calls w @ StartTransaction # (?cs3 @ [AbortTransaction])) = Some e'"
            by (simp_all add: c3)
          with c4 s4 show ?thesis
            by (intro exI [of _ "?cs3 @ [AbortTransaction]"] conjI allI impI
                exI [of _ "?cs3 @ [AbortTransaction]"]) simp_all
        qed
      qed
    qed
  qed
qed

lemma runner_shape:
  "runTransactionWithRetry txnFunc db w = Some y \<Longrightarrow> txnFunc = updateEmployeeInfo \<Longrightarrow>
   (\<exists>cs. calls (snd y) = calls w @ cs \<and> cs \<noteq> [] \<and>
      set cs \<subseteq> {StartTransaction, UpdateOne, InsertOne, CommitTransaction, AbortTransaction}) \<and>
   (\<forall>e. fst y = Inl e \<longrightarrow>
      (\<exists>hist. strict_prefix (calls w) hist \<and> prefix hist (calls (snd y)) \<and> db hist = Some e))"
proof (induct rule: runTransactionWithRetry.raw_induct [rotated 1, consumes 1, case_names step])
  case (step f txnFunc db w y)
  note IH = step(1) and body = step(2) and txn = step(3)
  from body txn obtain r w1 where
    attempt: "updateEmployeeInfo db w = Some (r, w1)"
    and rest: "(case r of Inr u \<Rightarrow> Some (Inr (), w1)
       | Inl error \<Rightarrow>
           (let w2 = console_log ''Transaction aborted. Caught exception during transaction.'' w1
            in if hasErrorLabel error ''TransientTransactionError''
               then f txnFunc db
                      (console_log ''TransientTransactionError, retrying transaction ...'' w2)
               else Some (Inl error, w2))) = Some y"
    by (auto simp add: bind_eq_Some_conv)
  from attempt_shape [OF attempt] obtain cs where
    cs: "calls w1 = calls w @ StartTransaction # cs"
      "set cs \<subseteq> {UpdateOne, InsertOne, CommitTransaction, AbortTransaction}"
    and err: "\<forall>e. r = Inl e \<longrightarrow>
               (\<exists>cs'. prefix cs' cs \<and> db (calls w @ StartTransaction # cs') = Some e)"
    by blast
  show ?case
  proof (cases r)
    case (Inr u)
    with rest have "y = (Inr (), w1)" by simp
    with cs show ?thesis by auto
  next
    case (Inl e)
    let ?w2 = "console_log ''Transaction aborted. Caught exception during transaction.'' w1"
    show ?thesis
    proof (cases "hasErrorLabel e ''TransientTransactionError''")
      case True
      let ?w3 = "console_log ''TransientTransactionError, retrying transaction ...'' ?w2"
      from rest Inl True have "f txnFunc db ?w3 = Some y" by simp
      from IH [OF this txn] obtain ds where
        ds: "calls (snd y) = calls ?w3 @ ds"
          "set ds \<subseteq> {StartTransaction, UpdateOne, InsertOne, CommitTransaction, AbortTransaction}"
        and derr: "\<forall>e. fst y = Inl e \<longrightarrow>
          (\<exists>hist. strict_prefix (calls ?w3) hist \<and> prefix hist (calls (snd y)) \<and> db hist = Some e)"
        by blast
      from ds cs have "calls (snd y) = calls w @ (StartTransaction # cs @ ds)"
        "set (StartTransaction # cs @ ds)
           \<subseteq> {StartTransaction, UpdateOne, InsertOne, CommitTransaction, AbortTransaction}"
        by auto
      moreover have "strict_prefix (calls w) hist" if "strict_prefix (calls ?w3) hist" for hist
      proof -
        have "strict_prefix (calls w) (calls ?w3)"
          by (rule strict_prefixI') (simp add: cs)
        with that show ?thesis by simp
      qed
      ultimately show ?thesis using derr by blast
    next
      case False
      with rest Inl have y: "y = (Inl e, ?w2)" by simp
      from err Inl obtain cs' where
        cs': "prefix cs' cs" "db (calls w @ StartTransaction # cs') = Some e"
        by blast
      have "strict_prefix (calls w) (calls w @ StartTransaction # cs')"
        by (rule strict_prefixI') simp
      moreover from cs' have "prefix (calls w @ StartTransaction # cs') (calls (snd y))"
        by (simp add: y cs)
      ultimately have "\<exists>hist. strict_prefix (calls w) hist \<and> prefix hist (calls (snd y)) \<and>
          db hist = Some e"
        using cs'(2) by blast
      with y cs show ?thesis by auto
    qed
  qed
qed

lemma runner_never_throws_transient:
  "runTransactionWithRetry txnFunc db w = Some y \<Longrightarrow>
   \<forall>e. fst y = Inl e \<longrightarrow> \<not> hasErrorLabel e ''TransientTransactionError''"
proof (induct rule: runTransactionWithRetry.raw_induct [rotated 1, consumes 1, case_names step])
  case (step f txnFunc db w y)
  note IH = step(1) and body = step(2)
  from body obtain r w1 where
    attempt: "txnFunc db w = Some (r, w1)"
    and rest: "(case r of Inr u \<Rightarrow> Some (Inr (), w1)
       | Inl error \<Rightarrow>
           (let w2 = console_log ''Transaction aborted. Caught exception during transaction.'' w1
            in if hasErrorLabel error ''TransientTransactionError''
               then f txnFunc db
                      (console_log ''TransientTransactionError, retrying transaction ...'' w2)
               else Some (Inl error, w2))) = Some y"
    by (auto simp add: bind_eq_Some_conv)
  show ?case
  proof (cases r)
    case (Inr u)
    with rest show ?thesis by auto
  next
    case (Inl e)
    with rest IH show ?thesis
      by (cases "hasErrorLabel e ''TransientTransactionError''") auto
  qed
qed

section \<open>Termination and divergence\<close>

lemma commit_terminates:
  assumes "commit_known_after db N"
  shows "\<exists>y. commitWithRetry db w = Some y"
proof (induct "N - count_list (calls w) CommitTransaction" arbitrary: w rule: less_induct)
  case less
  let ?w1 = "w\<lparr>calls := calls w @ [CommitTransaction]\<rparr>"
  show ?case
  proof (cases "db (calls w @ [CommitTransaction])")
    case None
    then show ?thesis by (simp add: commit_resolved)
  next
    case (Some e)
    show ?thesis
    proof (cases "hasErrorLabel e ''UnknownTransactionCommitResult''")
      case False
      with Some show ?thesis by (simp add: commit_rejected)
    next
      case True
      let ?w2 = "console_log ''UnknownTransactionCommitResult, retrying commit operation ...'' ?w1"
      from assms Some True have "\<not> N \<le> count_list (calls w) CommitTransaction"
        unfolding commit_known_after_def by blast
      then have "N - count_list (calls ?w2) CommitTransaction
          < N - count_list (calls w) CommitTransaction"
        by simp
      from less [OF this] commit_unknown [of db w e, OF Some True] show ?thesis by simp
    qed
  qed
qed

lemma attempt_terminates:
  assumes "commit_known_after db N"
  shows "\<exists>y. updateEmployeeInfo db w = Some y"
proof -
  have "\<exists>y. (commitWithRetry db w2 \<bind> k) = Some y"
    if "\<And>x. \<exists>y. k x = Some y" for w2 and k :: "unit outcome \<Rightarrow> unit outcome option"
  proof -
    from commit_terminates [OF assms] obtain x where "commitWithRetry db w2 = Some x" by blast
    with that [of x] show ?thesis by simp
  qed
  then show ?thesis
    unfolding updateEmployeeInfo_def
    by (auto split: prod.splits sum.splits)
qed

lemma run_terminates:
  assumes "non_transient_after db K" and "commit_known_after db N"
  shows "\<exists>y. run db w = Some y"
proof (induct "K - count_list (calls w) StartTransaction" arbitrary: w rule: less_induct)
  case less
  from attempt_terminates [OF assms(2)] obtain r w1 where
    attempt: "updateEmployeeInfo db w = Some (r, w1)"
    by fastforce
  from attempt_shape [OF attempt] obtain cs where
    cs: "calls w1 = calls w @ StartTransaction # cs"
      "set cs \<subseteq> {UpdateOne, InsertOne, CommitTransaction, AbortTransaction}"
    and err: "\<forall>e. r = Inl e \<longrightarrow>
               (\<exists>cs'. prefix cs' cs \<and> db (calls w @ StartTransaction # cs') = Some e)"
    by blast
  show ?case
  proof (cases r)
    case (Inr u)
    with attempt show ?thesis by (simp add: run_returns)
  next
    case (Inl e)
    show ?thesis
    proof (cases "hasErrorLabel e ''TransientTransactionError''")
      case False
      with attempt Inl show ?thesis by (simp add: run_throws)
    next
      case True
      let ?w2 = "console_log ''TransientTransactionError, retrying transaction ...''
          (console_log ''Transaction aborted. Caught exception during transaction.'' w1)"
      from err Inl obtain cs' where "db (calls w @ StartTransaction # cs') = Some e"
        by blast
      with assms(1) True
      have "\<not> K \<le> count_list (calls w @ StartTransaction # cs') StartTransaction"
        unfolding non_transient_after_def by blast
      then have "count_list (calls w) StartTransaction < K" by simp
      moreover from cs(2) have "count_list cs StartTransaction = 0"
        by (intro count_notin) auto
      ultimately have "K - count_list (calls ?w2) StartTransaction
          < K - count_list (calls w) StartTransaction"
        by (simp add: cs(1))
      from less [OF this] run_retries [of db w e w1] attempt Inl True show ?thesis by simp
    qed
  qed
qed

lemma runner_diverges:
  "runTransactionWithRetry txnFunc db w = Some y \<Longrightarrow> txnFunc = updateEmployeeInfo \<Longrightarrow>
   db = commit_always_transient \<Longrightarrow> False"
proof (induct rule: runTransactionWithRetry.raw_induct [rotated 1, consumes 1, case_names step])
  case (step f txnFunc db w y)
  note IH = step(1) and body = step(2) and txn = step(3) and drv = step(4)
  let ?e = "MongoError 10 [''TransientTransactionError'']"
  let ?w1 = "console_log ''Error during commit ...''
     (w\<lparr>calls := calls w @ [StartTransaction, UpdateOne, InsertOne, CommitTransaction,
                             AbortTransaction]\<rparr>)"
  have "updateEmployeeInfo commit_always_transient w = Some (Inl ?e, ?w1)"
    by (simp add: attempt_defs commit_rejected commit_always_transient_def hasErrorLabel_def
        console_log_def)
  with body txn drv have "f txnFunc db
      (console_log ''TransientTransactionError, retrying transaction ...''
        (console_log ''Transaction aborted. Caught exception during transaction.'' ?w1)) = Some y"
    by (simp add: hasErrorLabel_def)
  from IH [OF this txn drv] show ?case .
qed

section \<open>Terminal errors of the work unit\<close>

text \<open>
  Claim C1 says that after a write of the work unit fails with an error that has no
  recognized label, the run returns that error, has called \<open>abortTransaction\<close> exactly once
  and has not tried to commit. The code calls \<open>abortTransaction\<close> only in the \<open>catch\<close> around
  \<open>commitWithRetry\<close>, so no abort is made on this path: in the run below \<open>updateOne\<close> is
  rejected with an error without labels, the run returns it, and the session has seen
  \<open>startTransaction\<close> and \<open>updateOne\<close> only.
\<close>

theorem work_unit_error_abort_count:
  "answers (replay [None, Some (MongoError 1 [])]) (calls fresh)
     [(StartTransaction, None), (UpdateOne, Some (MongoError 1 []))] \<and>
   \<not> hasErrorLabel (MongoError 1 []) ''TransientTransactionError'' \<and>
   \<not> hasErrorLabel (MongoError 1 []) ''UnknownTransactionCommitResult'' \<and>
   run (replay [None, Some (MongoError 1 [])]) fresh =
     Some (Inl (MongoError 1 []),
           \<lparr>calls = [StartTransaction, UpdateOne],
            console = [''Transaction aborted. Caught exception during transaction.'']\<rparr>) \<and>
   count_list [StartTransaction, UpdateOne] AbortTransaction = 0"
  by (simp add: run_throws attempt_defs replay_def fresh_def hasErrorLabel_def console_log_def)

text \<open>
  Claim C1, amended: when \<open>startTransaction\<close> resolves and \<open>updateOne\<close> or \<open>insertOne\<close> is
  rejected with an error that does not carry \<open>TransientTransactionError\<close>, the run returns
  that very error, and the calls it has made are those of this attempt up to the rejected
  write: neither \<open>abortTransaction\<close> nor \<open>commitTransaction\<close> is among them.
\<close>

theorem work_unit_error_returned_without_abort:
  assumes "attempt = [(StartTransaction, None), (UpdateOne, Some e)] \<or>
           attempt = [(StartTransaction, None), (UpdateOne, None), (InsertOne, Some e)]"
    and "answers db (calls w) attempt"
    and "\<not> hasErrorLabel e ''TransientTransactionError''"
  shows "\<exists>w'. run db w = Some (Inl e, w') \<and> calls w' = calls w @ map fst attempt \<and>
              count_list (map fst attempt) AbortTransaction = 0 \<and>
              count_list (map fst attempt) CommitTransaction = 0"
proof -
  from assms(1) show ?thesis
  proof
    assume a: "attempt = [(StartTransaction, None), (UpdateOne, Some e)]"
    with assms(2) have "updateEmployeeInfo db w =
        Some (Inl e, w\<lparr>calls := calls w @ [StartTransaction, UpdateOne]\<rparr>)"
      by (simp add: attempt_defs)
    from run_throws [OF this assms(3)] a show ?thesis
      by simp
  next
    assume a: "attempt = [(StartTransaction, None), (UpdateOne, None), (InsertOne, Some e)]"
    with assms(2) have "updateEmployeeInfo db w =
        Some (Inl e, w\<lparr>calls := calls w @ [StartTransaction, UpdateOne, InsertOne]\<rparr>)"
      by (simp add: attempt_defs)
    from run_throws [OF this assms(3)] a show ?thesis
      by simp
  qed
qed

theorem work_unit_error_returned_without_abort_witness:
  "answers (replay [None, None, Some (MongoError 7 [''RetryableWriteError''])]) (calls fresh)
     [(StartTransaction, None), (UpdateOne, None),
      (InsertOne, Some (MongoError 7 [''RetryableWriteError'']))] \<and>
   \<not> hasErrorLabel (MongoError 7 [''RetryableWriteError'']) ''TransientTransactionError'' \<and>
   (\<exists>w'. run (replay [None, None, Some (MongoError 7 [''RetryableWriteError''])]) fresh =
           Some (Inl (MongoError 7 [''RetryableWriteError'']), w') \<and>
         calls w' = [StartTransaction, UpdateOne, InsertOne])"
  using work_unit_error_returned_without_abort
    [of "[(StartTransaction, None), (UpdateOne, None),
          (InsertOne, Some (MongoError 7 [''RetryableWriteError'']))]"
        "MongoError 7 [''RetryableWriteError'']"
        "replay [None, None, Some (MongoError 7 [''RetryableWriteError''])]" fresh]
  by (simp add: replay_def fresh_def hasErrorLabel_def)

section \<open>Terminal errors of the commit\<close>

text \<open>
  Claim C2 says that after a commit fails with an error that has no recognized label, the run
  returns that error and \<open>abortTransaction\<close> is not invoked. The code does the opposite of the
  second part: the \<open>catch\<close> around \<open>commitWithRetry\<close> in \<open>updateEmployeeInfo\<close> calls
  \<open>abortTransaction\<close> before it throws the error again. In the run below the commit is
  rejected with an error without labels, and the session has seen one \<open>abortTransaction\<close>
  after the commit.
\<close>

theorem commit_error_abort_count:
  "answers (replay [None, None, None, Some (MongoError 2 [])]) (calls fresh)
     [(StartTransaction, None), (UpdateOne, None), (InsertOne, None),
      (CommitTransaction, Some (MongoError 2 []))] \<and>
   \<not> hasErrorLabel (MongoError 2 []) ''TransientTransactionError'' \<and>
   \<not> hasErrorLabel (MongoError 2 []) ''UnknownTransactionCommitResult'' \<and>
   run (replay [None, None, None, Some (MongoError 2 [])]) fresh =
     Some (Inl (MongoError 2 []),
           \<lparr>calls = [StartTransaction, UpdateOne, InsertOne, CommitTransaction, AbortTransaction],
            console = [''Error during commit ...'',
                       ''Transaction aborted. Caught exception during transaction.'']\<rparr>) \<and>
   count_list [StartTransaction, UpdateOne, InsertOne, CommitTransaction, AbortTransaction]
     AbortTransaction = 1"
  by (simp add: run_throws commit_rejected attempt_defs replay_def fresh_def hasErrorLabel_def
      console_log_def)

text \<open>
  Claim C2, amended: when the commit is rejected with an error \<open>e\<close> that carries neither
  label (after any number of \<open>UnknownTransactionCommitResult\<close> answers, which are retried)
  and the abort that follows resolves, the run returns the very error \<open>e\<close>, and
  \<open>abortTransaction\<close> has been invoked exactly once, right after the failed commit.
\<close>

theorem commit_error_returned_after_abort:
  assumes "answers db (calls w)
       ([(StartTransaction, None), (UpdateOne, None), (InsertOne, None)] @
        map (\<lambda>u. (CommitTransaction, Some u)) es @
        [(CommitTransaction, Some e), (AbortTransaction, None)])"
    and "\<forall>u \<in> set es. hasErrorLabel u ''UnknownTransactionCommitResult''"
    and "\<not> hasErrorLabel e ''UnknownTransactionCommitResult''"
    and "\<not> hasErrorLabel e ''TransientTransactionError''"
  shows "\<exists>w'. run db w = Some (Inl e, w') \<and>
        calls w' = calls w @ [StartTransaction, UpdateOne, InsertOne] @
                   replicate (Suc (length es)) CommitTransaction @ [AbortTransaction]"
proof -
  from attempt_commit_rejected [OF assms(1-3)] obtain w1 where
    "updateEmployeeInfo db w = Some (Inl e, w1)"
    "calls w1 = calls w @ [StartTransaction, UpdateOne, InsertOne] @
                   replicate (Suc (length es)) CommitTransaction @ [AbortTransaction]"
    by blast
  with run_throws [OF this(1) assms(4)] show ?thesis by simp
qed

theorem commit_error_returned_after_abort_witness:
  "answers (replay [None, None, None, Some (MongoError 4 [''UnknownTransactionCommitResult'']),
                    Some (MongoError 5 [''NetworkError''])]) (calls fresh)
       [(StartTransaction, None), (UpdateOne, None), (InsertOne, None),
        (CommitTransaction, Some (MongoError 4 [''UnknownTransactionCommitResult''])),
        (CommitTransaction, Some (MongoError 5 [''NetworkError''])), (AbortTransaction, None)] \<and>
   (\<exists>w'. run (replay [None, None, None, Some (MongoError 4 [''UnknownTransactionCommitResult'']),
                    Some (MongoError 5 [''NetworkError''])]) fresh =
           Some (Inl (MongoError 5 [''NetworkError'']), w') \<and>
         calls w' = [StartTransaction, UpdateOne, InsertOne, CommitTransaction, CommitTransaction,
                     AbortTransaction])"
  using commit_error_returned_after_abort [of "replay [None, None, None, Some (MongoError 4 [''UnknownTransactionCommitResult'']),
                    Some (MongoError 5 [''NetworkError''])]" fresh
               "[MongoError 4 [''UnknownTransactionCommitResult'']]" "MongoError 5 [''NetworkError'']"]
  by (simp add: replay_def fresh_def hasErrorLabel_def)

section \<open>A commit error labelled as transient\<close>




section \<open>Retry, then success\<close>

text \<open>
  Claim C4: when a write of the work unit is rejected once with an error labelled
  \<open>TransientTransactionError\<close> and the second attempt goes through (both writes and the
  commit resolve), the run returns success, the work unit has run exactly twice, and the
  second execution starts from its first write after a new \<open>startTransaction\<close> call.
\<close>

theorem transient_work_unit_error_retried_once:
  assumes "attempt = [(StartTransaction, None), (UpdateOne, Some e)] \<or>
           attempt = [(StartTransaction, None), (UpdateOne, None), (InsertOne, Some e)]"
    and "answers db (calls w) attempt"
    and "hasErrorLabel e ''TransientTransactionError''"
    and "answers db (calls w @ map fst attempt)
       [(StartTransaction, None), (UpdateOne, None), (InsertOne, None), (CommitTransaction, None)]"
  shows "\<exists>w'. run db w = Some (Inr (), w') \<and>
        calls w' = calls w @ map fst attempt @
                   [StartTransaction, UpdateOne, InsertOne, CommitTransaction] \<and>
        count_list (map fst attempt @ [StartTransaction, UpdateOne, InsertOne, CommitTransaction]) UpdateOne = 2 \<and>
        count_list (map fst attempt @ [StartTransaction, UpdateOne, InsertOne, CommitTransaction]) StartTransaction = 2"
proof -
  let ?w1 = "w\<lparr>calls := calls w @ map fst attempt\<rparr>"
  let ?w2 = "console_log ''TransientTransactionError, retrying transaction ...''
          (console_log ''Transaction aborted. Caught exception during transaction.'' ?w1)"
  have first: "updateEmployeeInfo db w = Some (Inl e, ?w1)"
    by (rule attempt_write_rejected [OF assms(1,2)])
  from assms(4) have "\<exists>w'. updateEmployeeInfo db ?w2 = Some (Inr (), w') \<and>
        calls w' = calls ?w2 @ [StartTransaction, UpdateOne, InsertOne] @
                   replicate (Suc (length ([] :: error list))) CommitTransaction"
    by (intro attempt_commit_resolved) simp_all
  then obtain w' where w': "updateEmployeeInfo db ?w2 = Some (Inr (), w')"
    "calls w' = calls w @ map fst attempt @ [StartTransaction, UpdateOne, InsertOne, CommitTransaction]"
    by auto
  have "run db w = run db ?w2"
    by (rule run_retries [OF first assms(3)])
  also have "\<dots> = Some (Inr (), w')"
    by (rule run_returns [OF w'(1)])
  finally show ?thesis using w'(2) assms(1) by auto
qed

theorem transient_work_unit_error_retried_once_witness:
  "answers (replay [None, Some (MongoError 6 [''TransientTransactionError''])]) (calls fresh)
     [(StartTransaction, None), (UpdateOne, Some (MongoError 6 [''TransientTransactionError''])),
      (StartTransaction, None), (UpdateOne, None), (InsertOne, None), (CommitTransaction, None)] \<and>
   (\<exists>w'. run (replay [None, Some (MongoError 6 [''TransientTransactionError''])]) fresh =
           Some (Inr (), w') \<and>
         calls w' = [StartTransaction, UpdateOne,
                     StartTransaction, UpdateOne, InsertOne, CommitTransaction])"
  using transient_work_unit_error_retried_once [of "[(StartTransaction, None),
                 (UpdateOne, Some (MongoError 6 [''TransientTransactionError'']))]"
               "MongoError 6 [''TransientTransactionError'']"
               "replay [None, Some (MongoError 6 [''TransientTransactionError''])]" fresh]
  by (simp add: replay_def fresh_def hasErrorLabel_def)

text \<open>
  Claim C5: when \<open>commitTransaction\<close> is rejected twice with errors labelled
  \<open>UnknownTransactionCommitResult\<close> and resolves the third time, the run returns success, the
  work unit has run exactly once, and \<open>commitTransaction\<close> was called exactly three times.
\<close>

theorem unknown_commit_result_retries_commit_only:
  assumes "answers db (calls w)
       [(StartTransaction, None), (UpdateOne, None), (InsertOne, None),
        (CommitTransaction, Some e1), (CommitTransaction, Some e2), (CommitTransaction, None)]"
    and "hasErrorLabel e1 ''UnknownTransactionCommitResult''"
    and "hasErrorLabel e2 ''UnknownTransactionCommitResult''"
  shows "\<exists>w'. run db w = Some (Inr (), w') \<and>
        calls w' = calls w @ [StartTransaction, UpdateOne, InsertOne,
                             CommitTransaction, CommitTransaction, CommitTransaction]"
proof -
  from assms have "\<exists>w'. updateEmployeeInfo db w = Some (Inr (), w') \<and>
        calls w' = calls w @ [StartTransaction, UpdateOne, InsertOne] @
                   replicate (Suc (length [e1, e2])) CommitTransaction"
    by (intro attempt_commit_resolved) simp_all
  then obtain w' where w': "updateEmployeeInfo db w = Some (Inr (), w')"
    "calls w' = calls w @ [StartTransaction, UpdateOne, InsertOne,
                             CommitTransaction, CommitTransaction, CommitTransaction]"
    by (auto simp add: numeral_3_eq_3)
  from run_returns [OF w'(1)] w'(2) show ?thesis by simp
qed

theorem unknown_commit_result_retries_commit_only_witness:
  "answers (replay [None, None, None, Some (MongoError 8 [''UnknownTransactionCommitResult'']),
                    Some (MongoError 9 [''UnknownTransactionCommitResult''])]) (calls fresh)
       [(StartTransaction, None), (UpdateOne, None), (InsertOne, None),
        (CommitTransaction, Some (MongoError 8 [''UnknownTransactionCommitResult''])),
        (CommitTransaction, Some (MongoError 9 [''UnknownTransactionCommitResult''])),
        (CommitTransaction, None)] \<and>
   (\<exists>w'. run (replay [None, None, None, Some (MongoError 8 [''UnknownTransactionCommitResult'']),
                    Some (MongoError 9 [''UnknownTransactionCommitResult''])]) fresh =
           Some (Inr (), w') \<and>
         calls w' = [StartTransaction, UpdateOne, InsertOne,
                     CommitTransaction, CommitTransaction, CommitTransaction])"
  using unknown_commit_result_retries_commit_only [of "replay [None, None, None, Some (MongoError 8 [''UnknownTransactionCommitResult'']),
                    Some (MongoError 9 [''UnknownTransactionCommitResult''])]" fresh
               "MongoError 8 [''UnknownTransactionCommitResult'']"
               "MongoError 9 [''UnknownTransactionCommitResult'']"]
  by (simp add: replay_def fresh_def hasErrorLabel_def)

section \<open>A terminal commit error and a rejected abort\<close>

text \<open>
  Claim C6 says that for every terminal failure, of the work unit or of the commit, the error
  the run returns is the very error the database reported for it. \<open>updateEmployeeInfo\<close>
  catches the commit error, awaits \<open>session.abortTransaction()\<close> and only then throws the
  commit error again (lines 132 to 134), so when the abort is rejected as well the commit
  error is lost. In the run below the commit is rejected with error 2, which has no label and
  so is terminal, the abort is rejected with error 11, and the run returns error 11: the
  caller never sees the error of the failed commit.
\<close>

theorem commit_error_replaced_by_abort_error:
  "answers (replay [None, None, None, Some (MongoError 2 []), Some (MongoError 11 [])])
     (calls fresh)
     [(StartTransaction, None), (UpdateOne, None), (InsertOne, None),
      (CommitTransaction, Some (MongoError 2 [])),
      (AbortTransaction, Some (MongoError 11 []))] \<and>
   \<not> hasErrorLabel (MongoError 2 []) ''TransientTransactionError'' \<and>
   \<not> hasErrorLabel (MongoError 2 []) ''UnknownTransactionCommitResult'' \<and>
   commitWithRetry (replay [None, None, None, Some (MongoError 2 []), Some (MongoError 11 [])])
     \<lparr>calls = [StartTransaction, UpdateOne, InsertOne], console = []\<rparr> =
     Some (Inl (MongoError 2 []),
           \<lparr>calls = [StartTransaction, UpdateOne, InsertOne, CommitTransaction],
            console = [''Error during commit ...'']\<rparr>) \<and>
   run (replay [None, None, None, Some (MongoError 2 []), Some (MongoError 11 [])]) fresh =
     Some (Inl (MongoError 11 []),
           \<lparr>calls = [StartTransaction, UpdateOne, InsertOne, CommitTransaction, AbortTransaction],
            console = [''Error during commit ...'',
                       ''Transaction aborted. Caught exception during transaction.'']\<rparr>) \<and>
   MongoError 11 [] \<noteq> MongoError 2 []"
  by (simp add: run_throws commit_rejected attempt_defs replay_def fresh_def hasErrorLabel_def
      console_log_def)

section \<open>The session stays open\<close>

text \<open>
  Claim C7: whatever the run returns (success at once or after retries, an error of the work
  unit, an error of the commit), the calls it has made on the session do not include
  \<open>endSession\<close>: closing the session is left to the caller.
\<close>

theorem session_never_closed:
  assumes "run db w = Some (r, w')"
  shows "\<exists>cs. calls w' = calls w @ cs \<and> EndSession \<notin> set cs"
proof -
  from runner_shape [of updateEmployeeInfo db w "(r, w')"] assms obtain cs where
    "calls w' = calls w @ cs"
    "set cs \<subseteq> {StartTransaction, UpdateOne, InsertOne, CommitTransaction, AbortTransaction}"
    by (auto simp add: run_def)
  then show ?thesis by (intro exI [of _ cs]) auto
qed

theorem session_never_closed_witness:
  "run (replay [None, None, None, Some (MongoError 3 [''TransientTransactionError''])]) fresh =
     Some (Inr (),
           \<lparr>calls = [StartTransaction, UpdateOne, InsertOne, CommitTransaction, AbortTransaction,
                     StartTransaction, UpdateOne, InsertOne, CommitTransaction],
            console = [''Error during commit ...'',
                       ''Transaction aborted. Caught exception during transaction.'',
                       ''TransientTransactionError, retrying transaction ...'',
                       ''Transaction committed.'']\<rparr>) \<and>
   (\<exists>cs. [StartTransaction, UpdateOne, InsertOne, CommitTransaction, AbortTransaction,
          StartTransaction, UpdateOne, InsertOne, CommitTransaction] = calls fresh @ cs \<and>
         EndSession \<notin> set cs)"
proof -
  have r: "run (replay [None, None, None, Some (MongoError 3 [''TransientTransactionError''])])
      fresh =
     Some (Inr (),
           \<lparr>calls = [StartTransaction, UpdateOne, InsertOne, CommitTransaction, AbortTransaction,
                     StartTransaction, UpdateOne, InsertOne, CommitTransaction],
            console = [''Error during commit ...'',
                       ''Transaction aborted. Caught exception during transaction.'',
                       ''TransientTransactionError, retrying transaction ...'',
                       ''Transaction committed.'']\<rparr>)"
    by (simp add: run_retries run_returns commit_rejected commit_resolved attempt_defs replay_def
        fresh_def hasErrorLabel_def console_log_def)
  from session_never_closed [OF r] r show ?thesis by simp
qed

section \<open>Termination\<close>

text \<open>
  Claim C8 says that the run terminates as soon as the database, after finitely many
  attempts, answers the work unit with an outcome that is not transient and the commit with
  an outcome that is not labelled \<open>UnknownTransactionCommitResult\<close>. That is not enough for
  the code, which also restarts the transaction when the commit is rejected with an error
  labelled \<open>TransientTransactionError\<close>: against the driver below every write resolves and no
  commit is answered with \<open>UnknownTransactionCommitResult\<close>, from the first attempt on, and
  the run never returns.
\<close>

theorem transient_commits_never_terminate:
  "work_unit_non_transient_after commit_always_transient 0 \<and>
   commit_known_after commit_always_transient 0 \<and>
   run commit_always_transient fresh = None"
proof (intro conjI)
  show "work_unit_non_transient_after commit_always_transient 0"
    by (auto simp add: work_unit_non_transient_after_def commit_always_transient_def)
  show "commit_known_after commit_always_transient 0"
    by (auto simp add: commit_known_after_def commit_always_transient_def hasErrorLabel_def)
  show "run commit_always_transient fresh = None"
  proof (cases "run commit_always_transient fresh")
    case (Some y)
    then show ?thesis
      unfolding run_def by (rule runner_diverges [THEN FalseE]) simp_all
  qed simp
qed

text \<open>
  Claim C8, amended: if after finitely many transaction attempts no outcome the database
  returns (to \<open>startTransaction\<close>, to a write of the work unit, to the commit or to the abort)
  is labelled \<open>TransientTransactionError\<close>, and after finitely many commit attempts no commit
  outcome is labelled \<open>UnknownTransactionCommitResult\<close>, then the run terminates, with
  success or with an error.
\<close>

theorem run_terminates_when_retries_stop:
  assumes "non_transient_after db K" and "commit_known_after db N"
  shows "\<exists>r w'. run db w = Some (r, w')"
  using run_terminates [OF assms, of w] by auto

theorem run_terminates_when_retries_stop_witness:
  "\<exists>r w'. run (replay [None, Some (MongoError 6 [''TransientTransactionError'']), None, None, None,
                      Some (MongoError 8 [''UnknownTransactionCommitResult''])]) fresh = Some (r, w')"
proof (rule run_terminates_when_retries_stop [of _ 6 6])
  let ?db = "replay [None, Some (MongoError 6 [''TransientTransactionError'']), None, None, None,
                      Some (MongoError 8 [''UnknownTransactionCommitResult''])]"
  have len: "count_list hist c \<le> length hist" for hist :: "call list" and c
    by (rule count_le_length)
  show "non_transient_after ?db 6"
    unfolding non_transient_after_def
  proof (intro allI impI)
    fix hist e
    assume "6 \<le> count_list hist StartTransaction" "?db hist = Some e"
    with len [of hist StartTransaction] show "\<not> hasErrorLabel e ''TransientTransactionError''"
      by (auto simp add: replay_def hasErrorLabel_def nth_Cons' split: if_splits)
  qed
  show "commit_known_after ?db 6"
    unfolding commit_known_after_def
  proof (intro allI impI)
    fix hist e
    assume "6 \<le> count_list hist CommitTransaction" "?db (hist @ [CommitTransaction]) = Some e"
    with len [of hist CommitTransaction]
    show "\<not> hasErrorLabel e ''UnknownTransactionCommitResult''"
      by (auto simp add: replay_def hasErrorLabel_def nth_Cons' split: if_splits)
  qed
qed

section \<open>Transient errors do not reach the caller\<close>

text \<open>
  Claim C9: the runner never returns an error labelled \<open>TransientTransactionError\<close> to its
  caller, whatever the transaction function; an error with that label coming out of the
  transaction function is answered by running the whole transaction function again, and the
  runner has no bound on these retries.
\<close>

theorem transient_error_never_surfaces:
  "(runTransactionWithRetry txnFunc db w = Some (Inl e, w') \<longrightarrow>
      \<not> hasErrorLabel e ''TransientTransactionError'') \<and>
   (txnFunc db w = Some (Inl t, w1) \<and> hasErrorLabel t ''TransientTransactionError'' \<longrightarrow>
      runTransactionWithRetry txnFunc db w =
        runTransactionWithRetry txnFunc db
          (console_log ''TransientTransactionError, retrying transaction ...''
            (console_log ''Transaction aborted. Caught exception during transaction.'' w1)))"
  using runner_never_throws_transient [of txnFunc db w "(Inl e, w')"]
    runner_retries [of txnFunc db w t w1]
  by auto

theorem transient_error_never_surfaces_witness:
  "runTransactionWithRetry updateEmployeeInfo
     (replay [None, Some (MongoError 6 [''TransientTransactionError'']), None,
              Some (MongoError 1 [])]) fresh =
     Some (Inl (MongoError 1 []),
           \<lparr>calls = [StartTransaction, UpdateOne, StartTransaction, UpdateOne],
            console = [''Transaction aborted. Caught exception during transaction.'',
                       ''TransientTransactionError, retrying transaction ...'',
                       ''Transaction aborted. Caught exception during transaction.'']\<rparr>) \<and>
   \<not> hasErrorLabel (MongoError 1 []) ''TransientTransactionError'' \<and>
   updateEmployeeInfo
     (replay [None, Some (MongoError 6 [''TransientTransactionError'']), None,
              Some (MongoError 1 [])]) fresh =
     Some (Inl (MongoError 6 [''TransientTransactionError'']),
           \<lparr>calls = [StartTransaction, UpdateOne], console = []\<rparr>) \<and>
   hasErrorLabel (MongoError 6 [''TransientTransactionError'']) ''TransientTransactionError'' \<and>
   runTransactionWithRetry updateEmployeeInfo
     (replay [None, Some (MongoError 6 [''TransientTransactionError'']), None,
              Some (MongoError 1 [])]) fresh =
   runTransactionWithRetry updateEmployeeInfo
     (replay [None, Some (MongoError 6 [''TransientTransactionError'']), None,
              Some (MongoError 1 [])])
     \<lparr>calls = [StartTransaction, UpdateOne],
      console = [''Transaction aborted. Caught exception during transaction.'',
                 ''TransientTransactionError, retrying transaction ...'']\<rparr>"
proof -
  let ?db = "replay [None, Some (MongoError 6 [''TransientTransactionError'']), None,
              Some (MongoError 1 [])]"
  have attempt: "updateEmployeeInfo ?db fresh =
     Some (Inl (MongoError 6 [''TransientTransactionError'']),
           \<lparr>calls = [StartTransaction, UpdateOne], console = []\<rparr>)"
    by (simp add: attempt_defs replay_def fresh_def)
  have r: "runTransactionWithRetry updateEmployeeInfo ?db fresh =
     Some (Inl (MongoError 1 []),
           \<lparr>calls = [StartTransaction, UpdateOne, StartTransaction, UpdateOne],
            console = [''Transaction aborted. Caught exception during transaction.'',
                       ''TransientTransactionError, retrying transaction ...'',
                       ''Transaction aborted. Caught exception during transaction.'']\<rparr>)"
    by (simp add: runner_retries [of updateEmployeeInfo] runner_throws [of updateEmployeeInfo]
        attempt_defs replay_def fresh_def hasErrorLabel_def console_log_def)
  have l: "hasErrorLabel (MongoError 6 [''TransientTransactionError''])
      ''TransientTransactionError''"
    by (simp add: hasErrorLabel_def)
  from transient_error_never_surfaces
    [of updateEmployeeInfo ?db fresh "MongoError 1 []" _
        "MongoError 6 [''TransientTransactionError'']"
        "\<lparr>calls = [StartTransaction, UpdateOne], console = []\<rparr>"]
    attempt r l
  show ?thesis by (simp add: console_log_def)
qed

section \<open>The handler ignores its event\<close>

text \<open>
  Claim C10: the handler of part\_000 gives the same result for any two events, against the
  same cluster; the event is never looked at. Every response it returns has status code 200
  and a body of at most 10 documents, the first documents that the cursor over
  \<open>sample_mflix.movies\<close> returns.
\<close>

theorem handler_ignores_event:
  "handler event1 client = handler event2 client \<and>
   (\<forall>r. handler event1 client = Inr r \<longrightarrow>
      statusCode r = 200 \<and> length (body r) \<le> 10 \<and>
      (\<exists>docs. client ''sample_mflix'' ''movies'' = Inr docs \<and> body r = take 10 docs))"
  by (auto simp add: handler_def limit_def split: sum.splits)

theorem handler_ignores_event_witness:
  "handler ''first event'' twelve_movies = handler ''second event'' twelve_movies \<and>
   handler ''first event'' twelve_movies =
     Inr \<lparr>statusCode = 200, body = [1, 2, 3, 4, 5, 6, 7, 8, 9, 10]\<rparr> \<and>
   length [1, 2, 3, 4, 5, 6, 7, 8, 9, 10 :: nat] \<le> 10"
proof -
  have r: "handler ''first event'' twelve_movies =
     Inr \<lparr>statusCode = 200, body = [1, 2, 3, 4, 5, 6, 7, 8, 9, 10]\<rparr>"
    by (simp add: handler_def limit_def twelve_movies_def)
  from handler_ignores_event [of "''first event''" twelve_movies "''second event''"] r
  show ?thesis by simp
qed

end
